theory Spec2Isabelle
  imports Complex_Main "HOL-Library.Log_Nat"
begin

section \<open>Python floats\<close>

text \<open>
  A Python float is an IEEE 754 double, and the model takes it as the real number it denotes.
  Where the rounding of an operation changes what the code does (the quotient of the rotate
  branch, the product that gives the centring tolerance, the range test of \<open>time.sleep\<close>)
  and where a decimal literal enters such an operation, the model rounds as the double
  arithmetic does: \<open>py_float x\<close> is the double nearest to \<open>x\<close>, ties to the even
  mantissa, with 53 bits from the exponent \<open>float_exponent\<close> of \<open>x\<close> (never below the
  subnormal exponent). A result of magnitude \<open>2 ^ 1024\<close> or more is the overflow to
  infinity; the places where that can happen test for it.
\<close>

definition round_half_even :: "real \<Rightarrow> int" where
  "round_half_even y =
     (let f = \<lfloor>y\<rfloor>; r = y - of_int f
      in if r < 1 / 2 then f
         else if r > 1 / 2 then f + 1
         else if even f then f else f + 1)"

definition pow2 :: "int \<Rightarrow> real" where
  "pow2 k = (if k \<ge> 0 then 2 ^ nat k else 1 / 2 ^ nat (- k))"

text \<open>For \<open>x > 0\<close>: the \<open>e\<close> with \<open>2 ^ e \<le> x < 2 ^ (e + 1)\<close>.\<close>

definition float_exponent :: "real \<Rightarrow> int" where
  "float_exponent x =
     (if x \<ge> 1 then bitlen \<lfloor>x\<rfloor> - 1 else - bitlen (\<lceil>1 / x\<rceil> - 1))"

definition py_float :: "real \<Rightarrow> real" where
  "py_float x =
     (if x = 0 then 0
      else
        (let e = max (float_exponent \<bar>x\<bar>) (- 1022);
             u = pow2 (e - 52)
         in sgn x * (of_int (round_half_even (\<bar>x\<bar> / u)) * u)))"

text \<open>The least magnitude that no longer is a finite double.\<close>

definition DBL_OVERFLOW :: real where
  "DBL_OVERFLOW = 2 ^ 1024"

section \<open>Configuration constants (config.py)\<close>

definition EMOTION_CONFIRM_COUNT :: int where
  "EMOTION_CONFIRM_COUNT = 3"

definition NO_FACE_RESET_COUNT :: int where
  "NO_FACE_RESET_COUNT = 30"

definition SAMPLES_PER_PERSON :: int where
  "SAMPLES_PER_PERSON = 5"

section \<open>RecognitionHandler (modules/recognition\_handler.py)\<close>

text \<open>
  The counters dictionary is kept as an association list in insertion order, which is the
  order in which the Python loops visit its keys. No method adds or removes a key, every
  loop only assigns to the key it is visiting, so one pass over the entries is the loop.
  \<open>recognition_active_label\<close> is \<open>None\<close> or a label.
\<close>

record RecognitionHandler =
  recognition_counters :: "(string \<times> int) list"
  recognition_active_label :: "string option"
  no_face_count :: int
  is_registering :: bool
  register_name :: string
  register_count :: int

definition RecognitionHandler_init :: RecognitionHandler where
  "RecognitionHandler_init =
     \<lparr> recognition_counters = [(''familiar'', 0), (''stranger'', 0)],
       recognition_active_label = None,
       no_face_count = 0,
       is_registering = False,
       register_name = '''',
       register_count = 0 \<rparr>"

definition update_entry :: "string \<Rightarrow> string \<times> int \<Rightarrow> string \<times> int" where
  "update_entry label e =
     (if fst e = label then (fst e, min EMOTION_CONFIRM_COUNT (snd e + 1))
      else if snd e > 0 then (fst e, snd e - 1)
      else e)"

definition update_counter :: "RecognitionHandler \<Rightarrow> string \<Rightarrow> RecognitionHandler" where
  "update_counter s label =
     s\<lparr>recognition_counters := map (update_entry label) (recognition_counters s)\<rparr>"

definition reset_counters :: "RecognitionHandler \<Rightarrow> RecognitionHandler" where
  "reset_counters s =
     s\<lparr>recognition_counters := map (\<lambda>e. (fst e, 0)) (recognition_counters s)\<rparr>"

definition decay_entry :: "string \<times> int \<Rightarrow> string \<times> int" where
  "decay_entry e = (if snd e > 0 then (fst e, snd e - 1) else e)"

definition decay_counters :: "RecognitionHandler \<Rightarrow> RecognitionHandler" where
  "decay_counters s =
     s\<lparr>recognition_counters := map decay_entry (recognition_counters s)\<rparr>"


definition is_confirmed :: "RecognitionHandler \<Rightarrow> string \<Rightarrow> bool" where
  "is_confirmed s label =
     ((case map_of (recognition_counters s) label of None \<Rightarrow> 0 | Some v \<Rightarrow> v)
        \<ge> EMOTION_CONFIRM_COUNT)"

definition on_face_lost :: "RecognitionHandler \<Rightarrow> bool \<times> RecognitionHandler" where
  "on_face_lost s =
     (let s1 = s\<lparr>no_face_count := no_face_count s + 1\<rparr>;
          s2 = decay_counters s1
      in if no_face_count s2 \<ge> NO_FACE_RESET_COUNT
         then (True, (reset_counters (s2\<lparr>recognition_active_label := None\<rparr>))
                       \<lparr>no_face_count := 0\<rparr>)
         else (False, s2))"

definition on_face_detected :: "RecognitionHandler \<Rightarrow> RecognitionHandler" where
  "on_face_detected s = s\<lparr>no_face_count := 0\<rparr>"

definition set_active_label :: "RecognitionHandler \<Rightarrow> string option \<Rightarrow> RecognitionHandler" where
  "set_active_label s label = s\<lparr>recognition_active_label := label\<rparr>"

definition get_active_label :: "RecognitionHandler \<Rightarrow> string option" where
  "get_active_label s = recognition_active_label s"

text \<open>
  \<open>start_registration\<close>: a name that is \<open>None\<close> or empty is replaced by
  \<open>person_<seconds>\<close>; the generated string is the parameter \<open>generated\<close>.
\<close>

definition start_registration ::
  "RecognitionHandler \<Rightarrow> string option \<Rightarrow> string \<Rightarrow> bool \<times> RecognitionHandler" where
  "start_registration s name generated =
     (True, s\<lparr>register_name :=
                 (case name of None \<Rightarrow> generated
                  | Some n \<Rightarrow> if n \<noteq> [] then n else generated),
               is_registering := True,
               register_count := 0\<rparr>)"

text \<open>
  \<open>handle_registration\<close>: \<open>success\<close> is what the recogniser's
  \<open>register_person\<close> answered for this frame.
\<close>

definition handle_registration :: "RecognitionHandler \<Rightarrow> bool \<Rightarrow> bool \<times> RecognitionHandler" where
  "handle_registration s success =
     (if success then
        (let s1 = s\<lparr>register_count := register_count s + 1\<rparr>
         in if register_count s1 \<ge> SAMPLES_PER_PERSON
            then (True, s1\<lparr>is_registering := False, register_name := '''',
                          register_count := 0\<rparr>)
            else (False, s1))
      else (False, s))"

definition cancel_registration :: "RecognitionHandler \<Rightarrow> RecognitionHandler" where
  "cancel_registration s =
     s\<lparr>is_registering := False, register_name := '''', register_count := 0\<rparr>"

text \<open>The states a handler can be in: the constructor's, closed under every method.\<close>

inductive rh_reachable :: "RecognitionHandler \<Rightarrow> bool" where
  rh_init: "rh_reachable RecognitionHandler_init"
| rh_update: "rh_reachable s \<Longrightarrow> rh_reachable (update_counter s label)"
| rh_reset: "rh_reachable s \<Longrightarrow> rh_reachable (reset_counters s)"
| rh_decay: "rh_reachable s \<Longrightarrow> rh_reachable (decay_counters s)"
| rh_lost: "rh_reachable s \<Longrightarrow> rh_reachable (snd (on_face_lost s))"
| rh_detected: "rh_reachable s \<Longrightarrow> rh_reachable (on_face_detected s)"
| rh_set_label: "rh_reachable s \<Longrightarrow> rh_reachable (set_active_label s l)"
| rh_start_reg: "rh_reachable s \<Longrightarrow> rh_reachable (snd (start_registration s name g))"
| rh_handle_reg: "rh_reachable s \<Longrightarrow> rh_reachable (snd (handle_registration s ok))"
| rh_cancel_reg: "rh_reachable s \<Longrightarrow> rh_reachable (cancel_registration s)"

text \<open>Calling \<open>update_counter(label)\<close> \<open>n\<close> times in a row.\<close>

fun update_counter_times :: "nat \<Rightarrow> string \<Rightarrow> RecognitionHandler \<Rightarrow> RecognitionHandler" where
  "update_counter_times 0 label s = s"
| "update_counter_times (Suc n) label s = update_counter_times n label (update_counter s label)"

text \<open>
  Calling \<open>on_face_lost()\<close> \<open>n\<close> times in a row: the values returned, in call order,
  and the final state.
\<close>

fun on_face_lost_times :: "nat \<Rightarrow> RecognitionHandler \<Rightarrow> bool list \<times> RecognitionHandler" where
  "on_face_lost_times 0 s = ([], s)"
| "on_face_lost_times (Suc n) s =
     (let before = on_face_lost_times n s; r = on_face_lost (snd before)
      in (fst before @ [fst r], snd r))"

text \<open>Both counters present, in the constructor's order, each within \<open>[0, threshold]\<close>.\<close>

definition counters_in_range :: "RecognitionHandler \<Rightarrow> bool" where
  "counters_in_range s =
     (case recognition_counters s of
        [(k1, f), (k2, t)] \<Rightarrow>
          k1 = ''familiar'' \<and> k2 = ''stranger'' \<and>
          0 \<le> f \<and> f \<le> EMOTION_CONFIRM_COUNT \<and> 0 \<le> t \<and> t \<le> EMOTION_CONFIRM_COUNT
      | _ \<Rightarrow> False)"

text \<open>The sum of the two counters never exceeds the threshold.\<close>

definition counters_sum_bounded :: "RecognitionHandler \<Rightarrow> bool" where
  "counters_sum_bounded s =
     (case recognition_counters s of
        [(k1, f), (k2, t)] \<Rightarrow>
          k1 = ''familiar'' \<and> k2 = ''stranger'' \<and>
          0 \<le> f \<and> 0 \<le> t \<and> f + t \<le> EMOTION_CONFIRM_COUNT
      | _ \<Rightarrow> False)"

section \<open>SearchController (modules/search\_controller.py)\<close>

definition SEARCH_CYCLES :: int where
  "SEARCH_CYCLES = 4"

definition SEARCH_ROTATE_PAUSE :: real where
  "SEARCH_ROTATE_PAUSE = 0.5"

definition SEARCH_ROTATE_SPEED :: int where
  "SEARCH_ROTATE_SPEED = 36"

definition SEARCH_45DEG_DURATION :: real where
  "SEARCH_45DEG_DURATION = 1.5"



definition FACE_CENTER_TOLERANCE :: real where
  "FACE_CENTER_TOLERANCE = py_float 0.16"

text \<open>Python's \<open>str\<close> of an integer, for the f-strings of the messages.\<close>

function str_nat :: "nat \<Rightarrow> string" where
  "str_nat n =
     (if n < 10 then [char_of (48 + n)]
      else str_nat (n div 10) @ [char_of (48 + n mod 10)])"
  by pat_completeness auto
termination
  by (relation "measure id") auto

declare str_nat.simps [simp del]

definition str_int :: "int \<Rightarrow> string" where
  "str_int i = (if i < 0 then CHR ''-'' # str_nat (nat (- i)) else str_nat (nat i))"

record SearchController =
  search_step :: int
  search_cycle :: int
  last_rotation_time :: real
  face_found_in_search :: bool

definition SearchController_init :: SearchController where
  "SearchController_init =
     \<lparr> search_step = 0, search_cycle = 0, last_rotation_time = 0,
       face_found_in_search = False \<rparr>"

definition reset :: "SearchController \<Rightarrow> SearchController" where
  "reset s = s\<lparr>search_step := 0, search_cycle := 0, last_rotation_time := 0,
               face_found_in_search := False\<rparr>"

text \<open>\<open>now\<close> is the value of \<open>time.time()\<close> at the call.\<close>

definition is_in_rotation_pause :: "SearchController \<Rightarrow> real \<Rightarrow> bool" where
  "is_in_rotation_pause s now = (now - last_rotation_time s < SEARCH_ROTATE_PAUSE)"

definition update_rotation_time :: "SearchController \<Rightarrow> real \<Rightarrow> SearchController" where
  "update_rotation_time s now = s\<lparr>last_rotation_time := now\<rparr>"

record search_action =
  sa_action :: string
  sa_duration :: real
  sa_message :: string

definition get_next_search_action :: "SearchController \<Rightarrow> search_action" where
  "get_next_search_action s =
     (if search_step s = 0 then
        \<lparr> sa_action = ''rotate_left'', sa_duration = SEARCH_45DEG_DURATION,
          sa_message = ''Scan: rotate left 45 degrees'' \<rparr>
      else if search_step s = 1 then
        \<lparr> sa_action = ''rotate_right'', sa_duration = SEARCH_45DEG_DURATION * 2,
          sa_message = ''Scan: rotate right 90 degrees ('' @ str_int (search_cycle s + 1)
                         @ ''/'' @ str_int SEARCH_CYCLES @ '')'' \<rparr>
      else if search_step s = 2 then
        \<lparr> sa_action = ''rotate_left'', sa_duration = SEARCH_45DEG_DURATION * 2,
          sa_message = ''Scan: rotate left 90 degrees ('' @ str_int (search_cycle s + 1)
                         @ ''/'' @ str_int SEARCH_CYCLES @ '')'' \<rparr>
      else if search_step s = 3 then
        \<lparr> sa_action = ''rotate_right'', sa_duration = SEARCH_45DEG_DURATION,
          sa_message = ''Scan: return to center'' \<rparr>
      else
        \<lparr> sa_action = ''complete'', sa_duration = 0, sa_message = ''Scan complete'' \<rparr>)"

definition advance_step :: "SearchController \<Rightarrow> SearchController" where
  "advance_step s =
     (if search_step s = 0 then s\<lparr>search_step := 1\<rparr>
      else if search_step s = 1 then s\<lparr>search_step := 2\<rparr>
      else if search_step s = 2 then
        (let s1 = s\<lparr>search_cycle := search_cycle s + 1\<rparr>
         in if search_cycle s1 \<ge> SEARCH_CYCLES then s1\<lparr>search_step := 3\<rparr>
            else s1\<lparr>search_step := 1\<rparr>)
      else if search_step s = 3 then s\<lparr>search_step := 4\<rparr>
      else s)"

definition is_search_complete :: "SearchController \<Rightarrow> bool" where
  "is_search_complete s = (search_step s > 3)"

definition on_face_found :: "SearchController \<Rightarrow> SearchController" where
  "on_face_found s = s\<lparr>face_found_in_search := True\<rparr>"

text \<open>
  The caller's use of the script: ask for the next action, carry it out, call
  \<open>advance_step\<close>, and so on. \<open>search_script n s\<close> lists what the first \<open>n\<close> calls of
  \<open>get_next_search_action\<close> answer (the field \<open>action\<close>) and the step they were asked at;
  \<open>advance_step_times n s\<close> is the state after \<open>n\<close> calls of \<open>advance_step\<close>.
\<close>

fun advance_step_times :: "nat \<Rightarrow> SearchController \<Rightarrow> SearchController" where
  "advance_step_times 0 s = s"
| "advance_step_times (Suc n) s = advance_step_times n (advance_step s)"

fun search_script :: "nat \<Rightarrow> SearchController \<Rightarrow> (int \<times> string) list" where
  "search_script 0 s = []"
| "search_script (Suc n) s =
     (search_step s, sa_action (get_next_search_action s)) # search_script n (advance_step s)"

subsection \<open>Face centering: \<open>center_face\<close>\<close>


record motor =
  enabled :: bool










section \<open>ActionRecorder (modules/action\_recorder.py)\<close>

definition ROTATE_STEP_DURATION :: real where
  "ROTATE_STEP_DURATION = py_float 0.15"

definition ROTATE_STEP_PAUSE :: real where
  "ROTATE_STEP_PAUSE = py_float 0.08"

text \<open>
  Times and durations are Python floats; the model takes them as real numbers. An entry of
  \<open>action_history\<close> is the dictionary \<open>{type, direction, duration, timestamp}\<close>, the
  in-flight action is \<open>None\<close> or \<open>{type, direction}\<close>. The lock is not modelled: every
  method runs to its end before the next starts.
\<close>

record recorded_action =
  act_type :: string
  act_direction :: string
  act_duration :: real
  act_timestamp :: real

record pending_action =
  pa_type :: string
  pa_direction :: string

record ActionRecorder =
  action_history :: "recorded_action list"
  is_returning :: bool
  return_action_index :: int
  current_action :: "pending_action option"
  action_start_time :: real

definition ActionRecorder_init :: ActionRecorder where
  "ActionRecorder_init =
     \<lparr> action_history = [], is_returning = False, return_action_index = 0,
       current_action = None, action_start_time = 0 \<rparr>"

datatype py_error = IndexError | ValueError | OverflowError

text \<open>
  \<open>_finish_current_action\<close> reads the clock twice: \<open>t_dur\<close> for the duration, \<open>t_stamp\<close>
  for the timestamp of the entry.
\<close>

definition finish_current_action :: "ActionRecorder \<Rightarrow> real \<Rightarrow> real \<Rightarrow> ActionRecorder" where
  "finish_current_action s t_dur t_stamp =
     (case current_action s of
        None \<Rightarrow> s
      | Some cur \<Rightarrow>
          (let duration = t_dur - action_start_time s;
               s1 = (if duration \<ge> 0.05
                     then s\<lparr>action_history := action_history s @
                            [\<lparr> act_type = pa_type cur, act_direction = pa_direction cur,
                               act_duration = duration, act_timestamp = t_stamp \<rparr>]\<rparr>
                     else s)
           in s1\<lparr>current_action := None, action_start_time := 0\<rparr>))"

text \<open>\<open>start_action\<close>: \<open>t_start\<close> is the clock read for \<open>_action_start_time\<close>.\<close>

definition start_action ::
  "ActionRecorder \<Rightarrow> string \<Rightarrow> string \<Rightarrow> real \<Rightarrow> real \<Rightarrow> real \<Rightarrow> ActionRecorder" where
  "start_action s action_type direction t_dur t_stamp t_start =
     (if is_returning s then s
      else
        (let s1 = (if current_action s \<noteq> None
                   then finish_current_action s t_dur t_stamp else s)
         in s1\<lparr>current_action := Some \<lparr> pa_type = action_type, pa_direction = direction \<rparr>,
               action_start_time := t_start\<rparr>))"

definition stop_action :: "ActionRecorder \<Rightarrow> real \<Rightarrow> real \<Rightarrow> ActionRecorder" where
  "stop_action s t_dur t_stamp =
     (if current_action s \<noteq> None then finish_current_action s t_dur t_stamp else s)"

definition get_current_action :: "ActionRecorder \<Rightarrow> pending_action option" where
  "get_current_action s = current_action s"

text \<open>\<open>record\<close> (the name is an Isabelle keyword).\<close>

definition record_action ::
  "ActionRecorder \<Rightarrow> string \<Rightarrow> string \<Rightarrow> real \<Rightarrow> real \<Rightarrow> ActionRecorder" where
  "record_action s action_type direction duration t_stamp =
     (if is_returning s then s
      else if duration < 0.05 then s
      else s\<lparr>action_history := action_history s @
               [\<lparr> act_type = action_type, act_direction = direction,
                  act_duration = duration, act_timestamp = t_stamp \<rparr>]\<rparr>)"

definition clear :: "ActionRecorder \<Rightarrow> ActionRecorder" where
  "clear s = s\<lparr>action_history := [], current_action := None, action_start_time := 0\<rparr>"

definition has_actions :: "ActionRecorder \<Rightarrow> bool" where
  "has_actions s = (length (action_history s) > 0)"

definition get_action_count :: "ActionRecorder \<Rightarrow> int" where
  "get_action_count s = int (length (action_history s))"

definition reverse_map :: "(string \<times> string) list" where
  "reverse_map =
     [(''left'', ''right''), (''right'', ''left''),
      (''forward'', ''backward''), (''backward'', ''forward'')]"

definition get_reverse_direction :: "string \<Rightarrow> string" where
  "get_reverse_direction direction =
     (case map_of reverse_map direction of None \<Rightarrow> direction | Some r \<Rightarrow> r)"

definition start_returning :: "ActionRecorder \<Rightarrow> real \<Rightarrow> real \<Rightarrow> bool \<times> ActionRecorder" where
  "start_returning s t_dur t_stamp =
     (let s1 = stop_action s t_dur t_stamp
      in if \<not> has_actions s1 then (False, s1)
         else (True, s1\<lparr>is_returning := True,
                        return_action_index := int (length (action_history s1)) - 1\<rparr>))"

record return_action =
  ret_type :: string
  ret_direction :: string
  ret_original_direction :: string
  ret_duration :: real
  ret_index :: int
  ret_total :: int

text \<open>
  \<open>get_next_return_action\<close>: the index is not negative where the list is read, so an index
  at or beyond the length raises \<open>IndexError\<close>.
\<close>

definition get_next_return_action :: "ActionRecorder \<Rightarrow> py_error + return_action option" where
  "get_next_return_action s =
     (if return_action_index s < 0 then Inr None
      else if return_action_index s \<ge> int (length (action_history s)) then Inl IndexError
      else
        (let action = action_history s ! nat (return_action_index s)
         in Inr (Some \<lparr> ret_type = act_type action,
                        ret_direction = get_reverse_direction (act_direction action),
                        ret_original_direction = act_direction action,
                        ret_duration = act_duration action,
                        ret_index = return_action_index s,
                        ret_total = int (length (action_history s)) \<rparr>)))"

definition advance_return_index :: "ActionRecorder \<Rightarrow> ActionRecorder" where
  "advance_return_index s = s\<lparr>return_action_index := return_action_index s - 1\<rparr>"

definition is_return_complete :: "ActionRecorder \<Rightarrow> bool" where
  "is_return_complete s = (return_action_index s < 0)"

definition finish_returning :: "ActionRecorder \<Rightarrow> ActionRecorder" where
  "finish_returning s = clear (s\<lparr>is_returning := False\<rparr>)"

subsection \<open>Replaying one action: \<open>execute_return_action\<close>\<close>

text \<open>
  What the method does to the outside is the sequence of motor calls and sleeps it makes.
  \<open>forward()\<close> and \<open>backward()\<close> are called without a speed.
\<close>

datatype event =
  TurnLeft int | TurnRight int | Forward | Backward | Stop | Sleep real

text \<open>
  \<open>time.sleep(d)\<close> of CPython (64-bit): the length is first turned into a signed 64-bit
  count of nanoseconds, the float product \<open>d * 1e9\<close>, and \<open>OverflowError\<close> is raised when
  that is not in \<open>[-2 ^ 63, 2 ^ 63)\<close>; a negative length then raises \<open>ValueError\<close>.
\<close>

definition sleep :: "real \<Rightarrow> py_error + event list" where
  "sleep d =
     (let ns = py_float (d * 10 ^ 9)
      in if ns < - (2 ^ 63) \<or> 2 ^ 63 \<le> ns then Inl OverflowError
         else if d < 0 then Inl ValueError
         else Inr [Sleep d])"

text \<open>\<open>int(x)\<close> of a finite float: truncation towards zero.\<close>

definition py_int :: "real \<Rightarrow> int" where
  "py_int x = (if x \<ge> 0 then \<lfloor>x\<rfloor> else \<lceil>x\<rceil>)"

text \<open>The loop \<open>for step in range(total_steps)\<close> of the rotate branch.\<close>

fun rotate_steps :: "nat \<Rightarrow> string \<Rightarrow> event list" where
  "rotate_steps 0 direction = []"
| "rotate_steps (Suc n) direction =
     [if direction = ''left'' then TurnLeft SEARCH_ROTATE_SPEED
      else TurnRight SEARCH_ROTATE_SPEED,
      Sleep ROTATE_STEP_DURATION, Stop, Sleep ROTATE_STEP_PAUSE]
     @ rotate_steps n direction"

text \<open>
  The body between fetching the action and the stabilisation sleep: no usable motor, the
  rotate branch, the move branch, or neither. In the rotate branch
  \<open>int(duration / step_duration)\<close> takes the quotient as the division of floats gives it,
  rounded to a double; a quotient that overflows is infinite, and \<open>int\<close> of it raises
  \<open>OverflowError\<close>.
\<close>

definition replay_motion :: "motor option \<Rightarrow> return_action \<Rightarrow> py_error + event list" where
  "replay_motion m action_info =
     (if (case m of None \<Rightarrow> True | Some mo \<Rightarrow> \<not> enabled mo) then
        sleep (ret_duration action_info)
      else if ret_type action_info = ''rotate'' then
        (let quotient = py_float (ret_duration action_info / ROTATE_STEP_DURATION)
         in if DBL_OVERFLOW \<le> \<bar>quotient\<bar> then Inl OverflowError
            else
              (let total_steps = py_int quotient
               in Inr (rotate_steps (nat total_steps) (ret_direction action_info))))
      else if ret_type action_info = ''move'' then
        (case sleep (ret_duration action_info) of
           Inl e \<Rightarrow> Inl e
         | Inr sl \<Rightarrow>
             Inr ([if ret_direction action_info = ''forward'' then Forward else Backward]
                  @ sl @ [Stop]))
      else Inr [])"

text \<open>
  \<open>execute_return_action(motor, obstacle_callback)\<close>; the callback is never used by the
  body. The result is the returned flag, the new state and the events; an exception leaves the
  state as it was.
\<close>

definition execute_return_action ::
  "ActionRecorder \<Rightarrow> motor option \<Rightarrow> py_error + (bool \<times> ActionRecorder \<times> event list)" where
  "execute_return_action s m =
     (case get_next_return_action s of
        Inl e \<Rightarrow> Inl e
      | Inr None \<Rightarrow> Inr (True, finish_returning s, [])
      | Inr (Some action_info) \<Rightarrow>
          (case replay_motion m action_info of
             Inl e \<Rightarrow> Inl e
           | Inr evs \<Rightarrow>
               Inr (False, advance_return_index s, evs @ [Sleep (py_float 0.1)])))"

subsection \<open>Returning to the origin: the caller's loop\<close>




text \<open>The states a recorder can be in: the constructor's, closed under every method.\<close>

inductive ar_reachable :: "ActionRecorder \<Rightarrow> bool" where
  ar_init: "ar_reachable ActionRecorder_init"
| ar_start_action:
    "ar_reachable s \<Longrightarrow> ar_reachable (start_action s action_type direction t_dur t_stamp t_start)"
| ar_stop_action: "ar_reachable s \<Longrightarrow> ar_reachable (stop_action s t_dur t_stamp)"
| ar_record:
    "ar_reachable s \<Longrightarrow> ar_reachable (record_action s action_type direction duration t_stamp)"
| ar_clear: "ar_reachable s \<Longrightarrow> ar_reachable (clear s)"
| ar_start_returning: "ar_reachable s \<Longrightarrow> ar_reachable (snd (start_returning s t_dur t_stamp))"
| ar_advance: "ar_reachable s \<Longrightarrow> ar_reachable (advance_return_index s)"
| ar_finish_returning: "ar_reachable s \<Longrightarrow> ar_reachable (finish_returning s)"
| ar_execute:
    "ar_reachable s \<Longrightarrow> execute_return_action s m = Inr (finished, s', evs) \<Longrightarrow> ar_reachable s'"

text \<open>Every entry of the history lasts at least 0.05 s.\<close>

definition history_above_threshold :: "ActionRecorder \<Rightarrow> bool" where
  "history_above_threshold s = list_all (\<lambda>a. act_duration a \<ge> 0.05) (action_history s)"



section \<open>Python floats: the rounding error\<close>

lemma pow2_powr: "pow2 k = 2 powr (real_of_int k)"
  by (simp add: pow2_def powr_int)




lemma pow2_less_iff: "pow2 a < pow2 b \<longleftrightarrow> a < b"
  by (simp add: pow2_powr)



lemma float_exponent_bounds:
  assumes "0 < x"
  shows "pow2 (float_exponent x) \<le> x" and "x < pow2 (float_exponent x + 1)"
proof -
  show "pow2 (float_exponent x) \<le> x"
  proof (cases "x \<ge> 1")
    case True
    then have n: "0 < \<lfloor>x\<rfloor>" by simp
    from bitlen_bounds [OF n] have "2 ^ nat (bitlen \<lfloor>x\<rfloor> - 1) \<le> \<lfloor>x\<rfloor>" by simp
    then have "real_of_int (2 ^ nat (bitlen \<lfloor>x\<rfloor> - 1)) \<le> of_int \<lfloor>x\<rfloor>"
      by (simp only: of_int_le_iff)
    also have "\<dots> \<le> x" by simp
    finally have "2 ^ nat (bitlen \<lfloor>x\<rfloor> - 1) \<le> x" by simp
    moreover have "0 \<le> bitlen \<lfloor>x\<rfloor> - 1"
      using n by (simp add: bitlen_alt_def)
    ultimately show ?thesis
      using True by (simp add: float_exponent_def pow2_def)
  next
    case False
    then have x1: "x < 1" by simp
    let ?m = "\<lceil>1 / x\<rceil>"
    let ?k = "bitlen (?m - 1)"
    have "1 < 1 / x" using assms x1 by simp
    then have m2: "2 \<le> ?m" by linarith
    then have p: "0 < ?m - 1" by simp
    from bitlen_bounds [OF p] have "?m - 1 < 2 ^ nat ?k" by simp
    then have "?m \<le> 2 ^ nat ?k" by simp
    then have "real_of_int ?m \<le> of_int (2 ^ nat ?k)" by (simp only: of_int_le_iff)
    then have "real_of_int ?m \<le> 2 ^ nat ?k" by simp
    moreover have "1 / x \<le> real_of_int ?m" by simp
    ultimately have "1 / x \<le> 2 ^ nat ?k" by linarith
    then have "1 \<le> 2 ^ nat ?k * x" using assms by (simp add: field_simps)
    then have "1 / 2 ^ nat ?k \<le> x" by (simp add: field_simps)
    moreover have k0: "0 \<le> ?k" by (rule bitlen_nonneg)
    ultimately show ?thesis
      using False k0 by (auto simp: float_exponent_def pow2_def)
  qed
  show "x < pow2 (float_exponent x + 1)"
  proof (cases "x \<ge> 1")
    case True
    then have n: "0 < \<lfloor>x\<rfloor>" by simp
    from bitlen_bounds [OF n] have "\<lfloor>x\<rfloor> < 2 ^ nat (bitlen \<lfloor>x\<rfloor>)" by simp
    then have "\<lfloor>x\<rfloor> + 1 \<le> 2 ^ nat (bitlen \<lfloor>x\<rfloor>)" by simp
    then have "real_of_int (\<lfloor>x\<rfloor> + 1) \<le> of_int (2 ^ nat (bitlen \<lfloor>x\<rfloor>))"
      by (simp only: of_int_le_iff)
    then have "real_of_int \<lfloor>x\<rfloor> + 1 \<le> 2 ^ nat (bitlen \<lfloor>x\<rfloor>)" by simp
    moreover have "x < real_of_int \<lfloor>x\<rfloor> + 1" by linarith
    ultimately have "x < 2 ^ nat (bitlen \<lfloor>x\<rfloor>)" by linarith
    moreover have "0 \<le> bitlen \<lfloor>x\<rfloor>" by (rule bitlen_nonneg)
    ultimately show ?thesis
      using True by (simp add: float_exponent_def pow2_def)
  next
    case False
    then have x1: "x < 1" by simp
    let ?m = "\<lceil>1 / x\<rceil>"
    let ?k = "bitlen (?m - 1)"
    have "1 < 1 / x" using assms x1 by simp
    then have m2: "2 \<le> ?m" by linarith
    then have p: "0 < ?m - 1" by simp
    have k1: "1 \<le> ?k" using p by (simp add: bitlen_alt_def)
    from bitlen_bounds [OF p] have "2 ^ nat (?k - 1) \<le> ?m - 1" by simp
    then have "real_of_int (2 ^ nat (?k - 1)) \<le> of_int (?m - 1)" by (simp only: of_int_le_iff)
    moreover have "real_of_int (?m - 1) < 1 / x" by linarith
    ultimately have "2 ^ nat (?k - 1) < 1 / x" by simp
    then have "2 ^ nat (?k - 1) * x < 1" using assms by (simp add: field_simps)
    then have lt: "x < 1 / 2 ^ nat (?k - 1)" by (simp add: field_simps)
    have "pow2 (- ?k + 1) = 1 / 2 ^ nat (?k - 1)"
      using k1 by (auto simp: pow2_def)
    with lt show ?thesis
      using False by (simp add: float_exponent_def)
  qed
qed

lemma float_exponent_unique:
  assumes "0 < x" "pow2 e \<le> x" "x < pow2 (e + 1)"
  shows "float_exponent x = e"
proof -
  have "pow2 (float_exponent x) < pow2 (e + 1)"
    using float_exponent_bounds(1) [OF assms(1)] assms(3) by linarith
  then have "float_exponent x < e + 1" by (simp only: pow2_less_iff)
  moreover have "pow2 e < pow2 (float_exponent x + 1)"
    using float_exponent_bounds(2) [OF assms(1)] assms(2) by linarith
  then have "e < float_exponent x + 1" by (simp only: pow2_less_iff)
  ultimately show ?thesis by simp
qed



lemma py_float_eval:
  assumes "0 < x" "pow2 e \<le> x" "x < pow2 (e + 1)" "- 1022 \<le> e"
  shows "py_float x = of_int (round_half_even (x / pow2 (e - 52))) * pow2 (e - 52)"
  using assms float_exponent_unique [OF assms(1-3)]
  by (simp add: py_float_def Let_def)

section \<open>Recognition counters: how each method changes them\<close>

lemma counters_in_range_iff:
  "counters_in_range s \<longleftrightarrow>
     (\<exists>f t. recognition_counters s = [(''familiar'', f), (''stranger'', t)] \<and>
        0 \<le> f \<and> f \<le> EMOTION_CONFIRM_COUNT \<and> 0 \<le> t \<and> t \<le> EMOTION_CONFIRM_COUNT)"
  by (auto simp: counters_in_range_def split: list.splits prod.splits)

lemma counters_sum_bounded_iff:
  "counters_sum_bounded s \<longleftrightarrow>
     (\<exists>f t. recognition_counters s = [(''familiar'', f), (''stranger'', t)] \<and>
        0 \<le> f \<and> 0 \<le> t \<and> f + t \<le> EMOTION_CONFIRM_COUNT)"
  by (auto simp: counters_sum_bounded_def split: list.splits prod.splits)

lemma update_counter_familiar_counters:
  "recognition_counters s = [(''familiar'', f), (''stranger'', t)] \<Longrightarrow>
   recognition_counters (update_counter s ''familiar'') =
     [(''familiar'', min EMOTION_CONFIRM_COUNT (f + 1)), (''stranger'', if t > 0 then t - 1 else t)]"
  by (simp add: update_counter_def update_entry_def)

lemma update_counter_stranger_counters:
  "recognition_counters s = [(''familiar'', f), (''stranger'', t)] \<Longrightarrow>
   recognition_counters (update_counter s ''stranger'') =
     [(''familiar'', if f > 0 then f - 1 else f), (''stranger'', min EMOTION_CONFIRM_COUNT (t + 1))]"
  by (simp add: update_counter_def update_entry_def)

lemma update_counter_other_counters:
  "recognition_counters s = [(''familiar'', f), (''stranger'', t)] \<Longrightarrow>
   label \<noteq> ''familiar'' \<Longrightarrow> label \<noteq> ''stranger'' \<Longrightarrow>
   recognition_counters (update_counter s label) =
     [(''familiar'', if f > 0 then f - 1 else f), (''stranger'', if t > 0 then t - 1 else t)]"
  by (simp add: update_counter_def update_entry_def)

lemma decay_counters_counters:
  "recognition_counters s = [(''familiar'', f), (''stranger'', t)] \<Longrightarrow>
   recognition_counters (decay_counters s) =
     [(''familiar'', if f > 0 then f - 1 else f), (''stranger'', if t > 0 then t - 1 else t)]"
  by (simp add: decay_counters_def decay_entry_def)

lemma reset_counters_counters:
  "recognition_counters s = [(''familiar'', f), (''stranger'', t)] \<Longrightarrow>
   recognition_counters (reset_counters s) = [(''familiar'', 0), (''stranger'', 0)]"
  by (simp add: reset_counters_def)

lemma on_face_lost_counters:
  "recognition_counters s = [(''familiar'', f), (''stranger'', t)] \<Longrightarrow>
   recognition_counters (snd (on_face_lost s)) =
     (if no_face_count s + 1 \<ge> NO_FACE_RESET_COUNT then [(''familiar'', 0), (''stranger'', 0)]
      else [(''familiar'', if f > 0 then f - 1 else f), (''stranger'', if t > 0 then t - 1 else t)])"
  by (simp add: on_face_lost_def Let_def decay_counters_def decay_entry_def reset_counters_def)

lemma registration_counters [simp]:
  "recognition_counters (snd (start_registration s name g)) = recognition_counters s"
  "recognition_counters (snd (handle_registration s ok)) = recognition_counters s"
  "recognition_counters (cancel_registration s) = recognition_counters s"
  "recognition_counters (on_face_detected s) = recognition_counters s"
  "recognition_counters (set_active_label s l) = recognition_counters s"
  by (simp_all add: start_registration_def handle_registration_def cancel_registration_def
        on_face_detected_def set_active_label_def Let_def)

lemma update_counter_sum_bounded:
  assumes "counters_sum_bounded s"
  shows "counters_sum_bounded (update_counter s label)"
proof -
  from assms obtain f t where c: "recognition_counters s = [(''familiar'', f), (''stranger'', t)]"
    and b: "0 \<le> f" "0 \<le> t" "f + t \<le> EMOTION_CONFIRM_COUNT"
    by (auto simp: counters_sum_bounded_iff)
  consider "label = ''familiar''" | "label = ''stranger''"
    | "label \<noteq> ''familiar''" "label \<noteq> ''stranger''" by blast
  then show ?thesis
  proof cases
    case 1
    with b show ?thesis
      unfolding counters_sum_bounded_iff update_counter_familiar_counters [OF c] 1
      by (auto simp: EMOTION_CONFIRM_COUNT_def)
  next
    case 2
    with b show ?thesis
      unfolding counters_sum_bounded_iff update_counter_stranger_counters [OF c] 2
      by (auto simp: EMOTION_CONFIRM_COUNT_def)
  next
    case 3
    with b show ?thesis
      unfolding counters_sum_bounded_iff update_counter_other_counters [OF c 3]
      by (auto simp: EMOTION_CONFIRM_COUNT_def)
  qed
qed

lemma rh_reachable_sum_bounded: "rh_reachable s \<Longrightarrow> counters_sum_bounded s"
proof (induction rule: rh_reachable.induct)
  case rh_init
  then show ?case
    by (simp add: counters_sum_bounded_iff RecognitionHandler_init_def EMOTION_CONFIRM_COUNT_def)
next
  case (rh_update s label)
  then show ?case by (simp add: update_counter_sum_bounded)
next
  case (rh_reset s)
  then show ?case
    by (auto simp: counters_sum_bounded_iff reset_counters_counters EMOTION_CONFIRM_COUNT_def)
next
  case (rh_decay s)
  then show ?case
    by (auto simp: counters_sum_bounded_iff decay_counters_counters)
next
  case (rh_lost s)
  then show ?case
    by (auto simp: counters_sum_bounded_iff on_face_lost_counters EMOTION_CONFIRM_COUNT_def)
qed (simp_all add: counters_sum_bounded_iff)

lemma update_counter_in_range:
  assumes "counters_in_range s"
  shows "counters_in_range (update_counter s label)"
proof -
  from assms obtain f t where c: "recognition_counters s = [(''familiar'', f), (''stranger'', t)]"
    and b: "0 \<le> f" "f \<le> EMOTION_CONFIRM_COUNT" "0 \<le> t" "t \<le> EMOTION_CONFIRM_COUNT"
    by (auto simp: counters_in_range_iff)
  consider "label = ''familiar''" | "label = ''stranger''"
    | "label \<noteq> ''familiar''" "label \<noteq> ''stranger''" by blast
  then show ?thesis
  proof cases
    case 1
    with b show ?thesis
      unfolding counters_in_range_iff update_counter_familiar_counters [OF c] 1
      by (auto simp: EMOTION_CONFIRM_COUNT_def)
  next
    case 2
    with b show ?thesis
      unfolding counters_in_range_iff update_counter_stranger_counters [OF c] 2
      by (auto simp: EMOTION_CONFIRM_COUNT_def)
  next
    case 3
    with b show ?thesis
      unfolding counters_in_range_iff update_counter_other_counters [OF c 3]
      by (auto simp: EMOTION_CONFIRM_COUNT_def)
  qed
qed

lemma decay_counters_in_range: "counters_in_range s \<Longrightarrow> counters_in_range (decay_counters s)"
  by (auto simp: counters_in_range_iff decay_counters_counters)

lemma reset_counters_in_range: "counters_in_range s \<Longrightarrow> counters_in_range (reset_counters s)"
  by (auto simp: counters_in_range_iff reset_counters_counters EMOTION_CONFIRM_COUNT_def)

lemma on_face_lost_in_range: "counters_in_range s \<Longrightarrow> counters_in_range (snd (on_face_lost s))"
  by (auto simp: counters_in_range_iff on_face_lost_counters EMOTION_CONFIRM_COUNT_def)

lemma rh_reachable_in_range: "rh_reachable s \<Longrightarrow> counters_in_range s"
proof (induction rule: rh_reachable.induct)
  case rh_init
  then show ?case
    by (simp add: counters_in_range_iff RecognitionHandler_init_def EMOTION_CONFIRM_COUNT_def)
qed (simp_all add: update_counter_in_range decay_counters_in_range reset_counters_in_range
       on_face_lost_in_range, simp_all add: counters_in_range_iff)

lemma update_counter_times_3:
  "update_counter_times (nat EMOTION_CONFIRM_COUNT) l s =
     update_counter (update_counter (update_counter s l) l) l"
  by (simp add: EMOTION_CONFIRM_COUNT_def numeral_3_eq_3)


lemma on_face_lost_below:
  "no_face_count s + 1 < NO_FACE_RESET_COUNT \<Longrightarrow>
   on_face_lost s = (False, decay_counters (s\<lparr>no_face_count := no_face_count s + 1\<rparr>))"
  by (simp add: on_face_lost_def Let_def decay_counters_def)

lemma on_face_lost_reaching:
  "no_face_count s + 1 \<ge> NO_FACE_RESET_COUNT \<Longrightarrow>
   on_face_lost s =
     (True, s\<lparr>recognition_counters := map (\<lambda>e. (fst e, 0)) (recognition_counters s),
              recognition_active_label := None, no_face_count := 0\<rparr>)"
  by (simp add: on_face_lost_def Let_def decay_counters_def reset_counters_def decay_entry_def
        comp_def if_distrib)

lemma decay_counters_fields [simp]:
  "no_face_count (decay_counters s) = no_face_count s"
  "recognition_active_label (decay_counters s) = recognition_active_label s"
  "map fst (recognition_counters (decay_counters s)) = map fst (recognition_counters s)"
  by (simp_all add: decay_counters_def decay_entry_def comp_def if_distrib)

text \<open>While the no-face counter stays below the limit, every call answers False.\<close>

lemma on_face_lost_times_below:
  "int k < NO_FACE_RESET_COUNT - no_face_count s \<Longrightarrow>
   fst (on_face_lost_times k s) = replicate k False \<and>
   recognition_active_label (snd (on_face_lost_times k s)) = recognition_active_label s \<and>
   no_face_count (snd (on_face_lost_times k s)) = no_face_count s + int k \<and>
   map fst (recognition_counters (snd (on_face_lost_times k s))) = map fst (recognition_counters s)"
proof (induction k)
  case 0
  then show ?case by simp
next
  case (Suc k)
  let ?b = "snd (on_face_lost_times k s)"
  from Suc.prems have "int k < NO_FACE_RESET_COUNT - no_face_count s" by simp
  note ih = Suc.IH [OF this]
  from ih Suc.prems have b: "no_face_count ?b + 1 < NO_FACE_RESET_COUNT" by simp
  have step: "on_face_lost ?b = (False, decay_counters (?b\<lparr>no_face_count := no_face_count ?b + 1\<rparr>))"
    by (rule on_face_lost_below [OF b])
  show ?case
    using ih by (simp add: step Let_def replicate_append_same)
qed

section \<open>SearchController: auxiliary facts\<close>

lemma reset_eq: "reset s = SearchController_init"
  by (simp add: reset_def SearchController_init_def)

lemma FACE_CENTER_TOLERANCE_value:
  "FACE_CENTER_TOLERANCE = 5764607523034235 / 36028797018963968"
  unfolding FACE_CENTER_TOLERANCE_def by code_simp




section \<open>ActionRecorder: the history and the replay\<close>

lemma finish_current_action_history:
  "action_history (finish_current_action s t_dur t_stamp) =
     (case current_action s of
        None \<Rightarrow> action_history s
      | Some cur \<Rightarrow>
          if t_dur - action_start_time s \<ge> 0.05
          then action_history s @
                 [\<lparr> act_type = pa_type cur, act_direction = pa_direction cur,
                    act_duration = t_dur - action_start_time s, act_timestamp = t_stamp \<rparr>]
          else action_history s)"
  by (simp add: finish_current_action_def Let_def split: option.splits)

lemma finish_current_action_fields [simp]:
  "current_action (finish_current_action s t_dur t_stamp) = None"
  "is_returning (finish_current_action s t_dur t_stamp) = is_returning s"
  "return_action_index (finish_current_action s t_dur t_stamp) = return_action_index s"
  by (simp_all add: finish_current_action_def Let_def split: option.splits)

lemma stop_action_eq: "stop_action s t_dur t_stamp = finish_current_action s t_dur t_stamp"
  by (simp add: stop_action_def finish_current_action_def)

lemma finish_current_action_above:
  "history_above_threshold s \<Longrightarrow> history_above_threshold (finish_current_action s t_dur t_stamp)"
  by (simp add: history_above_threshold_def finish_current_action_history split: option.splits)

lemma start_action_above:
  "history_above_threshold s \<Longrightarrow>
   history_above_threshold (start_action s action_type direction t_dur t_stamp t_start)"
  using finish_current_action_above [of s t_dur t_stamp]
  by (simp add: start_action_def Let_def history_above_threshold_def)

lemma record_action_above:
  "history_above_threshold s \<Longrightarrow>
   history_above_threshold (record_action s action_type direction duration t_stamp)"
  by (simp add: record_action_def history_above_threshold_def)

lemma start_returning_above:
  "history_above_threshold s \<Longrightarrow> history_above_threshold (snd (start_returning s t_dur t_stamp))"
  using finish_current_action_above [of s t_dur t_stamp]
  by (simp add: start_returning_def Let_def stop_action_eq history_above_threshold_def)

lemma execute_return_action_above:
  "history_above_threshold s \<Longrightarrow> execute_return_action s m = Inr (finished, s', evs) \<Longrightarrow>
   history_above_threshold s'"
  by (auto simp: execute_return_action_def history_above_threshold_def finish_returning_def
        clear_def advance_return_index_def split: sum.splits option.splits)

lemma ar_reachable_above: "ar_reachable s \<Longrightarrow> history_above_threshold s"
proof (induction rule: ar_reachable.induct)
  case ar_init
  then show ?case by (simp add: history_above_threshold_def ActionRecorder_init_def)
next
  case (ar_start_action s action_type direction t_dur t_stamp t_start)
  then show ?case by (simp add: start_action_above)
next
  case (ar_stop_action s t_dur t_stamp)
  then show ?case by (simp add: stop_action_eq finish_current_action_above)
next
  case (ar_record s action_type direction duration t_stamp)
  then show ?case by (simp add: record_action_above)
next
  case (ar_clear s)
  then show ?case by (simp add: history_above_threshold_def clear_def)
next
  case (ar_start_returning s t_dur t_stamp)
  then show ?case by (simp add: start_returning_above)
next
  case (ar_advance s)
  then show ?case by (simp add: history_above_threshold_def advance_return_index_def)
next
  case (ar_finish_returning s)
  then show ?case by (simp add: history_above_threshold_def finish_returning_def clear_def)
next
  case (ar_execute s m finished s' evs)
  then show ?case using execute_return_action_above by blast
qed

























section \<open>RecognitionHandler: the claims\<close>

text \<open>
  Claim C5. From any state whose two counters lie in \<open>[0, EMOTION_CONFIRM_COUNT]\<close>, calling
  \<open>update_counter("familiar")\<close> \<open>EMOTION_CONFIRM_COUNT\<close> times leaves \<open>familiar\<close> confirmed
  and \<open>stranger\<close> not confirmed, whatever the stranger counter was before. One call raises the
  named counter by one up to the threshold and lowers the other by one down to zero. In every
  state the handler can reach, the two labels are never confirmed together.
\<close>

theorem C5_familiar_confirmed_after_threshold_updates:
  "(counters_in_range s \<longrightarrow>
      is_confirmed (update_counter_times (nat EMOTION_CONFIRM_COUNT) ''familiar'' s) ''familiar'' \<and>
      \<not> is_confirmed (update_counter_times (nat EMOTION_CONFIRM_COUNT) ''familiar'' s) ''stranger'')
   \<and> (recognition_counters s = [(''familiar'', f), (''stranger'', t)] \<longrightarrow>
      recognition_counters (update_counter s ''familiar'') =
        [(''familiar'', min EMOTION_CONFIRM_COUNT (f + 1)),
         (''stranger'', if t > 0 then t - 1 else t)])
   \<and> (rh_reachable r \<longrightarrow> \<not> (is_confirmed r ''familiar'' \<and> is_confirmed r ''stranger''))"
proof (intro conjI impI)
  assume "counters_in_range s"
  then obtain f t where c: "recognition_counters s = [(''familiar'', f), (''stranger'', t)]"
    and b: "0 \<le> f" "f \<le> EMOTION_CONFIRM_COUNT" "0 \<le> t" "t \<le> EMOTION_CONFIRM_COUNT"
    by (auto simp: counters_in_range_iff)
  let ?s3 = "update_counter_times (nat EMOTION_CONFIRM_COUNT) ''familiar'' s"
  have "recognition_counters ?s3 = [(''familiar'', EMOTION_CONFIRM_COUNT), (''stranger'', 0)]"
    unfolding update_counter_times_3
    using b
    by (simp add: update_counter_familiar_counters
          [OF update_counter_familiar_counters [OF update_counter_familiar_counters [OF c]]]
          EMOTION_CONFIRM_COUNT_def)
  then show "is_confirmed ?s3 ''familiar''" "\<not> is_confirmed ?s3 ''stranger''"
    by (simp_all add: is_confirmed_def EMOTION_CONFIRM_COUNT_def)
next
  assume "recognition_counters s = [(''familiar'', f), (''stranger'', t)]"
  then show "recognition_counters (update_counter s ''familiar'') =
        [(''familiar'', min EMOTION_CONFIRM_COUNT (f + 1)),
         (''stranger'', if t > 0 then t - 1 else t)]"
    by (rule update_counter_familiar_counters)
next
  assume "rh_reachable r"
  then have "counters_sum_bounded r" by (rule rh_reachable_sum_bounded)
  then show "\<not> (is_confirmed r ''familiar'' \<and> is_confirmed r ''stranger'')"
    by (auto simp: counters_sum_bounded_iff is_confirmed_def EMOTION_CONFIRM_COUNT_def)
qed

theorem C5_witness:
  "counters_in_range (RecognitionHandler_init\<lparr>recognition_counters := [(''familiar'', 1), (''stranger'', 3)]\<rparr>)
   \<and> is_confirmed (update_counter_times (nat EMOTION_CONFIRM_COUNT) ''familiar''
        (RecognitionHandler_init\<lparr>recognition_counters := [(''familiar'', 1), (''stranger'', 3)]\<rparr>)) ''familiar''
   \<and> \<not> is_confirmed (update_counter_times (nat EMOTION_CONFIRM_COUNT) ''familiar''
        (RecognitionHandler_init\<lparr>recognition_counters := [(''familiar'', 1), (''stranger'', 3)]\<rparr>)) ''stranger''
   \<and> recognition_counters (update_counter
        (RecognitionHandler_init\<lparr>recognition_counters := [(''familiar'', 1), (''stranger'', 3)]\<rparr>) ''familiar'')
        = [(''familiar'', 2), (''stranger'', 2)]
   \<and> rh_reachable (update_counter RecognitionHandler_init ''stranger'')
   \<and> \<not> (is_confirmed (update_counter RecognitionHandler_init ''stranger'') ''familiar'' \<and>
          is_confirmed (update_counter RecognitionHandler_init ''stranger'') ''stranger'')"
proof -
  let ?s = "RecognitionHandler_init\<lparr>recognition_counters := [(''familiar'', 1), (''stranger'', 3)]\<rparr>"
  let ?r = "update_counter RecognitionHandler_init ''stranger''"
  have h1: "counters_in_range ?s"
    by (simp add: counters_in_range_def EMOTION_CONFIRM_COUNT_def)
  have h2: "recognition_counters ?s = [(''familiar'', 1), (''stranger'', 3)]"
    by simp
  have h3: "rh_reachable ?r"
    by (rule rh_update [OF rh_init])
  show ?thesis
    using C5_familiar_confirmed_after_threshold_updates [of ?s 1 3 ?r] h1 h2 h3
    by (simp add: EMOTION_CONFIRM_COUNT_def)
qed

text \<open>
  Claim C6. In every reachable state both recognition counters are integers in
  \<open>[0, EMOTION_CONFIRM_COUNT]\<close>, and \<open>update_counter\<close>, \<open>decay_counters\<close>,
  \<open>reset_counters\<close> and \<open>on_face_lost\<close> each keep them there.
\<close>

theorem C6_counters_within_bounds:
  "(rh_reachable s \<longrightarrow> counters_in_range s)
   \<and> (counters_in_range s \<longrightarrow>
        counters_in_range (update_counter s label) \<and>
        counters_in_range (decay_counters s) \<and>
        counters_in_range (reset_counters s) \<and>
        counters_in_range (snd (on_face_lost s)))"
  by (simp add: rh_reachable_in_range update_counter_in_range decay_counters_in_range
        reset_counters_in_range on_face_lost_in_range)

theorem C6_witness:
  "rh_reachable (update_counter (update_counter RecognitionHandler_init ''familiar'') ''stranger'')
   \<and> counters_in_range (update_counter (update_counter RecognitionHandler_init ''familiar'') ''stranger'')
   \<and> recognition_counters (update_counter (update_counter RecognitionHandler_init ''familiar'') ''stranger'')
       = [(''familiar'', 0), (''stranger'', 1)]
   \<and> counters_in_range (decay_counters
        (update_counter (update_counter RecognitionHandler_init ''familiar'') ''stranger''))"
proof -
  let ?s = "update_counter (update_counter RecognitionHandler_init ''familiar'') ''stranger''"
  have h: "rh_reachable ?s"
    by (intro rh_update rh_init)
  have c: "recognition_counters ?s = [(''familiar'', 0), (''stranger'', 1)]"
    by (simp add: update_counter_def update_entry_def RecognitionHandler_init_def
          EMOTION_CONFIRM_COUNT_def)
  show ?thesis
    using C6_counters_within_bounds [of ?s "''familiar''"] h c by simp
qed

text \<open>
  Claim C7. With \<open>NO_FACE_RESET_COUNT = 30\<close> and a no-face counter of 0, the first 29
  consecutive calls of \<open>on_face_lost()\<close> all return False and leave the active label as it
  was; the 30th returns True, clears the active label, sets every recognition counter to 0
  and the no-face counter to 0. \<open>on_face_detected()\<close> changes only the no-face counter,
  which it sets to 0.
\<close>

theorem C7_face_lost_thirty_calls:
  assumes "no_face_count s = 0"
  shows "(\<forall>k \<le> 29.
            fst (on_face_lost_times k s) = replicate k False \<and>
            recognition_active_label (snd (on_face_lost_times k s)) = recognition_active_label s)
       \<and> fst (on_face_lost_times 30 s) = replicate 29 False @ [True]
       \<and> recognition_active_label (snd (on_face_lost_times 30 s)) = None
       \<and> recognition_counters (snd (on_face_lost_times 30 s)) =
           map (\<lambda>e. (fst e, 0)) (recognition_counters s)
       \<and> no_face_count (snd (on_face_lost_times 30 s)) = 0
       \<and> on_face_detected r = r\<lparr>no_face_count := 0\<rparr>"
proof -
  have below: "fst (on_face_lost_times k s) = replicate k False \<and>
      recognition_active_label (snd (on_face_lost_times k s)) = recognition_active_label s \<and>
      no_face_count (snd (on_face_lost_times k s)) = int k \<and>
      map fst (recognition_counters (snd (on_face_lost_times k s))) = map fst (recognition_counters s)"
    if "k \<le> 29" for k
    using on_face_lost_times_below [of k s] assms that
    by (simp add: NO_FACE_RESET_COUNT_def)
  let ?s29 = "snd (on_face_lost_times 29 s)"
  have n29: "no_face_count ?s29 + 1 \<ge> NO_FACE_RESET_COUNT"
    using below [of 29] by (simp add: NO_FACE_RESET_COUNT_def)
  have last: "on_face_lost ?s29 =
     (True, ?s29\<lparr>recognition_counters := map (\<lambda>e. (fst e, 0)) (recognition_counters ?s29),
              recognition_active_label := None, no_face_count := 0\<rparr>)"
    by (rule on_face_lost_reaching [OF n29])
  have keys: "map (\<lambda>e. (fst e, 0::int)) (recognition_counters ?s29) =
              map (\<lambda>e. (fst e, 0)) (recognition_counters s)"
  proof -
    have "map (\<lambda>e. (fst e, 0::int)) (recognition_counters ?s29) =
          map (\<lambda>k. (k, 0)) (map fst (recognition_counters ?s29))"
      by (simp add: comp_def)
    also have "\<dots> = map (\<lambda>k. (k, 0)) (map fst (recognition_counters s))"
      using below [of 29] by simp
    finally show ?thesis by (simp add: comp_def)
  qed
  have "on_face_lost_times (Suc 29) s =
      (fst (on_face_lost_times 29 s) @ [fst (on_face_lost ?s29)], snd (on_face_lost ?s29))"
    by (simp only: on_face_lost_times.simps Let_def)
  then have thirty: "on_face_lost_times 30 s =
      (fst (on_face_lost_times 29 s) @ [fst (on_face_lost ?s29)], snd (on_face_lost ?s29))"
    by simp
  show ?thesis
    using below thirty last keys
    by (simp add: on_face_detected_def)
qed

theorem C7_witness:
  "no_face_count (update_counter (set_active_label RecognitionHandler_init (Some ''familiar'')) ''familiar'') = 0
   \<and> fst (on_face_lost_times 29
        (update_counter (set_active_label RecognitionHandler_init (Some ''familiar'')) ''familiar''))
       = replicate 29 False
   \<and> recognition_active_label (snd (on_face_lost_times 29
        (update_counter (set_active_label RecognitionHandler_init (Some ''familiar'')) ''familiar'')))
       = Some ''familiar''
   \<and> fst (on_face_lost_times 30
        (update_counter (set_active_label RecognitionHandler_init (Some ''familiar'')) ''familiar''))
       = replicate 29 False @ [True]
   \<and> recognition_active_label (snd (on_face_lost_times 30
        (update_counter (set_active_label RecognitionHandler_init (Some ''familiar'')) ''familiar'')))
       = None
   \<and> recognition_counters (snd (on_face_lost_times 30
        (update_counter (set_active_label RecognitionHandler_init (Some ''familiar'')) ''familiar'')))
       = [(''familiar'', 0), (''stranger'', 0)]"
proof -
  let ?s = "update_counter (set_active_label RecognitionHandler_init (Some ''familiar'')) ''familiar''"
  have h: "no_face_count ?s = 0"
    by (simp add: update_counter_def set_active_label_def RecognitionHandler_init_def)
  have c: "recognition_counters ?s = [(''familiar'', 1), (''stranger'', 0)]"
    by (simp add: update_counter_def update_entry_def set_active_label_def
          RecognitionHandler_init_def EMOTION_CONFIRM_COUNT_def)
  have l: "recognition_active_label ?s = Some ''familiar''"
    by (simp add: update_counter_def set_active_label_def RecognitionHandler_init_def)
  have "29 \<le> (29::nat)" by simp
  with C7_face_lost_thirty_calls [OF h, of ?s] h c l show ?thesis
    by simp
qed



section \<open>SearchController: the claims\<close>

text \<open>
  Claim C4. With \<open>SEARCH_CYCLES = 4\<close>, from \<open>reset()\<close>, asking \<open>get_next_search_action\<close>
  and calling \<open>advance_step\<close> in turn gives: step 0 \<open>rotate_left\<close>, then four times the pair
  step 1 \<open>rotate_right\<close>, step 2 \<open>rotate_left\<close>, then step 3 \<open>rotate_right\<close>, then
  \<open>complete\<close>. \<open>is_search_complete()\<close> is False after 0 to 9 calls of \<open>advance_step\<close> and
  True after the 10th.
\<close>

theorem C4_search_script:
  "map snd (search_script 11 (reset s)) =
     [''rotate_left''] @ concat (replicate (nat SEARCH_CYCLES) [''rotate_right'', ''rotate_left''])
       @ [''rotate_right'', ''complete'']
   \<and> map fst (search_script 11 (reset s)) = [0, 1, 2, 1, 2, 1, 2, 1, 2, 3, 4]
   \<and> map (\<lambda>n. is_search_complete (advance_step_times n (reset s))) [0..<11]
       = replicate 10 False @ [True]
   \<and> is_search_complete (advance_step_times 10 (reset s))
   \<and> SEARCH_CYCLES = 4"
  unfolding reset_eq by code_simp




section \<open>ActionRecorder: the claims\<close>




text \<open>
  Claim C2. In a recorder that is not returning and holds an unfinished current action,
  \<open>start_action(kind, direction)\<close> first finalizes that action, appending it to the history
  when it has lasted at least 0.05 s, and then installs the new current action with its
  start time.
\<close>

theorem C2_start_action_finalizes_resident:
  assumes "\<not> is_returning s" and "current_action s = Some cur"
  shows "start_action s action_type direction t_dur t_stamp t_start =
           (finish_current_action s t_dur t_stamp)
             \<lparr>current_action := Some \<lparr> pa_type = action_type, pa_direction = direction \<rparr>,
              action_start_time := t_start\<rparr>
       \<and> action_history (start_action s action_type direction t_dur t_stamp t_start) =
           (if t_dur - action_start_time s \<ge> 0.05
            then action_history s @
                   [\<lparr> act_type = pa_type cur, act_direction = pa_direction cur,
                      act_duration = t_dur - action_start_time s, act_timestamp = t_stamp \<rparr>]
            else action_history s)
       \<and> current_action (start_action s action_type direction t_dur t_stamp t_start) =
           Some \<lparr> pa_type = action_type, pa_direction = direction \<rparr>
       \<and> action_start_time (start_action s action_type direction t_dur t_stamp t_start) = t_start"
  using assms
  by (simp add: start_action_def Let_def finish_current_action_history)

theorem C2_witness:
  "\<not> is_returning (start_action ActionRecorder_init ''move'' ''forward'' 0 0 10)
   \<and> current_action (start_action ActionRecorder_init ''move'' ''forward'' 0 0 10)
       = Some \<lparr> pa_type = ''move'', pa_direction = ''forward'' \<rparr>
   \<and> action_history (start_action (start_action ActionRecorder_init ''move'' ''forward'' 0 0 10)
        ''rotate'' ''left'' 12 12.5 13)
       = [\<lparr> act_type = ''move'', act_direction = ''forward'', act_duration = 2,
            act_timestamp = 12.5 \<rparr>]
   \<and> current_action (start_action (start_action ActionRecorder_init ''move'' ''forward'' 0 0 10)
        ''rotate'' ''left'' 12 12.5 13)
       = Some \<lparr> pa_type = ''rotate'', pa_direction = ''left'' \<rparr>"
proof -
  let ?s = "start_action ActionRecorder_init ''move'' ''forward'' 0 0 10"
  have s: "?s = \<lparr> action_history = [], is_returning = False, return_action_index = 0,
       current_action = Some \<lparr> pa_type = ''move'', pa_direction = ''forward'' \<rparr>,
       action_start_time = 10 \<rparr>"
    by (simp add: start_action_def ActionRecorder_init_def)
  have h1: "\<not> is_returning ?s" by (simp add: s)
  have h2: "current_action ?s = Some \<lparr> pa_type = ''move'', pa_direction = ''forward'' \<rparr>"
    by (simp add: s)
  have st: "action_start_time ?s = 10" "action_history ?s = []" by (simp_all add: s)
  show ?thesis
    using C2_start_action_finalizes_resident [OF h1 h2, of "''rotate''" "''left''" 12 "12.5" 13, THEN conjunct2] h1 h2
    by (simp add: st)
qed

text \<open>
  Claim C3. A duration below 0.05 s leaves the length of the history unchanged, on the
  direct \<open>record\<close> path and on the finalize path (\<open>stop_action\<close>,
  \<open>_finish_current_action\<close> and the implicit finalize of \<open>start_action\<close>). In every
  reachable state no entry of the history has a duration below 0.05 s.
\<close>

theorem C3_short_actions_never_recorded:
  "(duration < 0.05 \<longrightarrow>
      length (action_history (record_action s action_type direction duration t_stamp))
        = length (action_history s))
   \<and> (t_dur - action_start_time s < 0.05 \<longrightarrow>
      length (action_history (stop_action s t_dur t_stamp)) = length (action_history s) \<and>
      length (action_history (finish_current_action s t_dur t_stamp)) = length (action_history s) \<and>
      length (action_history (start_action s action_type direction t_dur t_stamp t_start))
        = length (action_history s))
   \<and> (ar_reachable r \<longrightarrow> (\<forall>a \<in> set (action_history r). act_duration a \<ge> 0.05))"
proof (intro conjI impI)
  assume "duration < 0.05"
  then show "length (action_history (record_action s action_type direction duration t_stamp))
        = length (action_history s)"
    by (simp add: record_action_def)
next
  assume d: "t_dur - action_start_time s < 0.05"
  then show f: "length (action_history (finish_current_action s t_dur t_stamp))
      = length (action_history s)"
    by (simp add: finish_current_action_history split: option.splits)
  then show "length (action_history (stop_action s t_dur t_stamp)) = length (action_history s)"
    by (simp add: stop_action_eq)
  from f show "length (action_history (start_action s action_type direction t_dur t_stamp t_start))
        = length (action_history s)"
    by (simp add: start_action_def Let_def)
next
  assume "ar_reachable r"
  then have "history_above_threshold r" by (rule ar_reachable_above)
  then show "\<forall>a \<in> set (action_history r). act_duration a \<ge> 0.05"
    by (simp add: history_above_threshold_def list_all_iff)
qed

theorem C3_witness:
  "(0.01::real) < 0.05
   \<and> length (action_history (record_action
        (start_action ActionRecorder_init ''move'' ''forward'' 0 0 10) ''rotate'' ''left'' 0.01 11)) = 0
   \<and> 10.02 - action_start_time (start_action ActionRecorder_init ''move'' ''forward'' 0 0 10) < 0.05
   \<and> length (action_history (stop_action
        (start_action ActionRecorder_init ''move'' ''forward'' 0 0 10) 10.02 11)) = 0
   \<and> ar_reachable (record_action ActionRecorder_init ''rotate'' ''left'' 0.2 1)
   \<and> map act_duration (action_history (record_action ActionRecorder_init ''rotate'' ''left'' 0.2 1))
       = [0.2]
   \<and> (0.05::real) \<le> 0.2"
proof -
  let ?s = "start_action ActionRecorder_init ''move'' ''forward'' 0 0 10"
  let ?r = "record_action ActionRecorder_init ''rotate'' ''left'' 0.2 1"
  have s: "?s = \<lparr> action_history = [], is_returning = False, return_action_index = 0,
       current_action = Some \<lparr> pa_type = ''move'', pa_direction = ''forward'' \<rparr>,
       action_start_time = 10 \<rparr>"
    by (simp add: start_action_def ActionRecorder_init_def)
  have h1: "(0.01::real) < 0.05" by simp
  have h2: "10.02 - action_start_time ?s < 0.05" by (simp add: s)
  have h3: "ar_reachable ?r" by (intro ar_record ar_init)
  have r: "action_history ?r =
     [\<lparr> act_type = ''rotate'', act_direction = ''left'', act_duration = 0.2, act_timestamp = 1 \<rparr>]"
    by (simp add: record_action_def ActionRecorder_init_def)
  have e: "action_history ?s = []" by (simp add: s)
  note t = C3_short_actions_never_recorded
             [where duration = "0.01" and s = ?s and action_type = "''rotate''"
                and direction = "''left''" and t_stamp = 11 and t_dur = "10.02"
                and t_start = 0 and r = ?r]
  have a: "length (action_history (record_action ?s ''rotate'' ''left'' 0.01 11)) = 0"
    using t h1 e by simp
  have b: "length (action_history (stop_action ?s 10.02 11)) = 0"
    using t h2 e by simp
  have c: "\<forall>a \<in> set (action_history ?r). act_duration a \<ge> 0.05"
    using t h3 by blast
  have d: "map act_duration (action_history ?r) = [0.2]"
    by (simp add: record_action_def ActionRecorder_init_def)
  have "(0.05::real) \<le> 0.2"
    using c by (simp add: record_action_def ActionRecorder_init_def)
  with h1 a h2 b h3 d show ?thesis
    by (intro conjI)
qed




end
